theory Spec2Isabelle
  imports Complex_Main "HOL-Library.Multiset" "HOL-Library.AList"
begin

section \<open>The blog's content pipeline: markdown posts to a JSON feed\<close>

text \<open>
  The build script of the blog reads every \<open>.md\<close> file of \<open>content/posts\<close>, parses its
  YAML front matter, renders the body, builds one post object per file, keeps the
  published ones, sorts them by date and writes them to \<open>_posts.json\<close>.

  The script is TypeScript running on a JavaScript engine. What it calls and is not code
  of the repository is a parameter of the model, a field of the record \<open>engine\<close>: the
  packages \<open>yaml-front-matter\<close>, \<open>@ts-stack/markdown\<close> and \<open>excerpt-html\<close>, and the
  engine's own \<open>Date.parse\<close>, \<open>Array.prototype.sort\<close> and conversions of strings and
  objects to numbers. The file system is a parameter too (the record \<open>filesystem\<close>).
  Everything the script itself does is a definition below, named as in the source.

  Strings are lists of code units; the model covers the code units below 256.
\<close>

subsection \<open>JavaScript values\<close>

text \<open>A JavaScript number: a finite value, an infinity, or NaN.\<close>

datatype jsnum = NaN | NegInf | Fin real | PosInf

text \<open>
  The values a parsed front matter can hold, and the ones the script adds. \<open>JDate t\<close> is a
  \<open>Date\<close> object with time value \<open>t\<close> (milliseconds since the epoch): the YAML parser
  turns an unquoted \<open>2018-09-22\<close> into one. An object is its list of properties in
  insertion order.
\<close>

datatype jsval =
    JUndefined
  | JNull
  | JBool bool
  | JNum jsnum
  | JStr string
  | JDate jsnum
  | JArr "jsval list"
  | JObj "(string \<times> jsval) list"

type_synonym obj = "(string \<times> jsval) list"

text \<open>Reading a property \<open>o.k\<close>: a missing property reads as \<open>undefined\<close>.\<close>

definition getProp :: "obj \<Rightarrow> string \<Rightarrow> jsval" where
  "getProp ob k = (case map_of ob k of None \<Rightarrow> JUndefined | Some v \<Rightarrow> v)"

text \<open>
  Writing a property \<open>o[k] = v\<close>, and a key of an object literal after a spread: an
  existing key keeps its place and takes the new value, a new key goes last.
\<close>

definition set_prop :: "string \<Rightarrow> jsval \<Rightarrow> obj \<Rightarrow> obj" where
  "set_prop k v ob = AList.update k v ob"

text \<open>\<open>ToBoolean\<close>: what a \<open>filter\<close> callback's result counts as.\<close>

fun ToBoolean :: "jsval \<Rightarrow> bool" where
  "ToBoolean JUndefined = False"
| "ToBoolean JNull = False"
| "ToBoolean (JBool b) = b"
| "ToBoolean (JNum n) = (n \<noteq> NaN \<and> n \<noteq> Fin 0)"
| "ToBoolean (JStr s) = (s \<noteq> [])"
| "ToBoolean (JDate t) = True"
| "ToBoolean (JArr vs) = True"
| "ToBoolean (JObj ps) = True"

text \<open>\<open>v ?? w\<close> and \<open>v?.m\<close> test for \<open>null\<close> and \<open>undefined\<close>.\<close>

fun nullish :: "jsval \<Rightarrow> bool" where
  "nullish JUndefined = True"
| "nullish JNull = True"
| "nullish v = False"

subsection \<open>Errors, diagnostics and the platform\<close>

datatype error =
    SystemError string      \<comment> \<open>thrown by \<open>fs\<close>: unreadable directory or file, unwritable target\<close>
  | LibraryError string     \<comment> \<open>thrown by one of the three packages\<close>
  | TypeError string        \<comment> \<open>thrown by the engine for the script's own expression\<close>

text \<open>A line on the console: \<open>console.log(e)\<close> in the catch block, or the line with the slug
  that \<open>markdownToJson\<close> prints for every post of the feed.\<close>

datatype diag = Failure error | Listed jsval

record engine =
  frontMatter :: "string \<Rightarrow> error + (obj \<times> string)"
    \<comment> \<open>yaml-front-matter's split and parse: the YAML mapping and the text after the block\<close>
  Marked_parse :: "string \<Rightarrow> error + string"
  excerptHtml :: "string \<Rightarrow> nat \<Rightarrow> error + string"
    \<comment> \<open>the second argument is the option \<open>pruneLength\<close>\<close>
  Date_parse :: "string \<Rightarrow> jsnum"
  StringToNumber :: "string \<Rightarrow> jsnum"
  ObjectToString :: "jsval \<Rightarrow> string"
    \<comment> \<open>what \<open>ToPrimitive\<close> gives for an array or a plain object\<close>
  Array_sort :: "(obj \<Rightarrow> obj \<Rightarrow> int) \<Rightarrow> obj list \<Rightarrow> obj list"

record filesystem =
  readdirSync :: "error + string list"
    \<comment> \<open>the names in \<open>contentDir\<close>\<close>
  readFileSync :: "string \<Rightarrow> error + string"
    \<comment> \<open>by name in \<open>contentDir\<close>: the script reads \<open>path.join(contentDir, f)\<close>\<close>
  writeFileSync :: "error option"
    \<comment> \<open>writing \<open>targetFile\<close>: \<open>None\<close> when it succeeds\<close>

subsection \<open>String methods the script calls\<close>

definition endsWith :: "string \<Rightarrow> string \<Rightarrow> bool" where
  "endsWith s suf \<longleftrightarrow> length suf \<le> length s \<and> drop (length s - length suf) s = suf"

text \<open>\<open>s.substring(0, n)\<close>: the first \<open>n\<close> code units, or all of \<open>s\<close> when it is shorter.\<close>

definition substring0 :: "nat \<Rightarrow> string \<Rightarrow> string" where
  "substring0 n s = take n s"

text \<open>\<open>s.split(c)\<close> for a separator of one code unit: never empty, one piece more than
  there are separators.\<close>

fun split :: "char \<Rightarrow> string \<Rightarrow> string list" where
  "split c [] = [[]]"
| "split c (x # xs) =
     (if x = c then [] # split c xs
      else (case split c xs of
              [] \<Rightarrow> [[x]]
            | w # ws \<Rightarrow> (x # w) # ws))"

text \<open>White space and line terminators, as \<open>trim\<close> strips them (code units below 256).\<close>

definition isWhite :: "char \<Rightarrow> bool" where
  "isWhite c \<longleftrightarrow> (of_char c :: nat) \<in> {9, 10, 11, 12, 13, 32, 160}"

definition trim :: "string \<Rightarrow> string" where
  "trim s = rev (dropWhile isWhite (rev (dropWhile isWhite s)))"

subsection \<open>The relational operators\<close>

fun num_less :: "jsnum \<Rightarrow> jsnum \<Rightarrow> bool" where
  "num_less NaN b = False"
| "num_less a NaN = False"
| "num_less NegInf NegInf = False"
| "num_less NegInf b = True"
| "num_less (Fin a) (Fin b) = (a < b)"
| "num_less (Fin a) PosInf = True"
| "num_less a b = False"

text \<open>Strings compare by code units, a proper prefix first.\<close>

fun str_less :: "string \<Rightarrow> string \<Rightarrow> bool" where
  "str_less [] [] = False"
| "str_less [] (y # ys) = True"
| "str_less (x # xs) [] = False"
| "str_less (x # xs) (y # ys) =
     (if (of_char x :: nat) < of_char y then True
      else if (of_char y :: nat) < of_char x then False
      else str_less xs ys)"

datatype prim = PUndefined | PNull | PBool bool | PNum jsnum | PStr string

fun ToPrimitive :: "engine \<Rightarrow> jsval \<Rightarrow> prim" where
  "ToPrimitive e JUndefined = PUndefined"
| "ToPrimitive e JNull = PNull"
| "ToPrimitive e (JBool b) = PBool b"
| "ToPrimitive e (JNum n) = PNum n"
| "ToPrimitive e (JStr s) = PStr s"
| "ToPrimitive e (JDate t) = PNum t"
| "ToPrimitive e (JArr vs) = PStr (ObjectToString e (JArr vs))"
| "ToPrimitive e (JObj ps) = PStr (ObjectToString e (JObj ps))"

fun ToNumber :: "engine \<Rightarrow> prim \<Rightarrow> jsnum" where
  "ToNumber e PUndefined = NaN"
| "ToNumber e PNull = Fin 0"
| "ToNumber e (PBool b) = Fin (if b then 1 else 0)"
| "ToNumber e (PNum n) = n"
| "ToNumber e (PStr s) = StringToNumber e s"

text \<open>
  The abstract relational comparison of the language: \<open>None\<close> is its result
  \<open>undefined\<close>, which an operand that converts to NaN gives.
\<close>

definition IsLessThan :: "engine \<Rightarrow> jsval \<Rightarrow> jsval \<Rightarrow> bool option" where
  "IsLessThan e x y =
     (case (ToPrimitive e x, ToPrimitive e y) of
        (PStr s, PStr t) \<Rightarrow> Some (str_less s t)
      | (px, py) \<Rightarrow>
          (let nx = ToNumber e px; ny = ToNumber e py
           in if nx = NaN \<or> ny = NaN then None else Some (num_less nx ny)))"

text \<open>\<open>x < y\<close> is true when the comparison says so; \<open>x >= y\<close> is true when the comparison
  of \<open>x\<close> with \<open>y\<close> says false. Both are false on \<open>undefined\<close>.\<close>

definition js_lt :: "engine \<Rightarrow> jsval \<Rightarrow> jsval \<Rightarrow> bool" where
  "js_lt e x y \<longleftrightarrow> IsLessThan e x y = Some True"

definition js_ge :: "engine \<Rightarrow> jsval \<Rightarrow> jsval \<Rightarrow> bool" where
  "js_ge e x y \<longleftrightarrow> IsLessThan e x y = Some False"

subsection \<open>The script\<close>

text \<open>
  \<open>loadFront\<close> of yaml-front-matter: the parsed mapping with the rest of the text stored
  under the key \<open>__content\<close> (\<open>conf[contentKeyName] = results[3] || ''\<close>).
\<close>

definition loadFront :: "engine \<Rightarrow> string \<Rightarrow> error + obj" where
  "loadFront e text =
     (case frontMatter e text of
        Inl ex \<Rightarrow> Inl ex
      | Inr (conf, rest) \<Rightarrow> Inr (set_prop ''__content'' (JStr rest) conf))"

text \<open>
  \<open>yamlHeader.tags?.split(',').map((t) => t.trim())\<close>: \<open>undefined\<close> for a missing or null
  field, the trimmed pieces for a string; any other value has no method \<open>split\<close>, and
  calling it throws.
\<close>

definition tagsOf :: "jsval \<Rightarrow> error + jsval" where
  "tagsOf t =
     (if nullish t then Inr JUndefined
      else (case t of
              JStr s \<Rightarrow> Inr (JArr (map (\<lambda>t. JStr (trim t)) (split CHR '','' s)))
            | _ \<Rightarrow> Inl (TypeError ''yamlHeader.tags.split is not a function'')))"

text \<open>\<open>yamlHeader.date ?? Date.parse(file.substring(0, 10))\<close>\<close>

definition dateOf :: "engine \<Rightarrow> string \<Rightarrow> jsval \<Rightarrow> jsval" where
  "dateOf e file d = (if nullish d then JNum (Date_parse e (substring0 10 file)) else d)"

text \<open>
  The object literal that \<open>getPostData\<close> returns: the header's properties, then
  \<open>slug\<close>, \<open>contentHtml\<close>, \<open>excerptHtml\<close>, \<open>tags\<close> and \<open>date\<close>, each of which
  replaces a property of that name from the header.
\<close>

definition postLiteral :: "obj \<Rightarrow> string \<Rightarrow> string \<Rightarrow> string \<Rightarrow> jsval \<Rightarrow> jsval \<Rightarrow> obj" where
  "postLiteral yamlHeader file contentHtml excerpt tags date =
     set_prop ''date'' date
       (set_prop ''tags'' tags
         (set_prop ''excerptHtml'' (JStr excerpt)
           (set_prop ''contentHtml'' (JStr contentHtml)
             (set_prop ''slug'' (JStr file) yamlHeader))))"

text \<open>The body of the \<open>try\<close> block of \<open>getPostData\<close>: \<open>Inl\<close> is the exception it throws.\<close>

definition tryBlock :: "engine \<Rightarrow> string \<Rightarrow> string \<Rightarrow> error + obj" where
  "tryBlock e file fileContents =
     (case loadFront e fileContents of
        Inl ex \<Rightarrow> Inl ex
      | Inr yamlHeader \<Rightarrow>
          (case getProp yamlHeader ''__content'' of
             JStr markdown \<Rightarrow>
               (case Marked_parse e markdown of
                  Inl ex \<Rightarrow> Inl ex
                | Inr contentHtml \<Rightarrow>
                    (case excerptHtml e contentHtml 250 of
                       Inl ex \<Rightarrow> Inl ex
                     | Inr excerpt \<Rightarrow>
                         (let date = dateOf e file (getProp yamlHeader ''date'')
                          in case tagsOf (getProp yamlHeader ''tags'') of
                               Inl ex \<Rightarrow> Inl ex
                             | Inr tags \<Rightarrow>
                                 Inr (postLiteral yamlHeader file contentHtml excerpt tags date))))
           | _ \<Rightarrow> Inl (TypeError ''__content is not a string'')))"

text \<open>
  \<open>getPostData\<close>: the file is read before the \<open>try\<close> block, so a failed read rejects the
  promise (\<open>Inl\<close>); an exception inside the block is logged and the result is
  \<open>undefined\<close> (\<open>None\<close>).
\<close>

definition getPostData :: "engine \<Rightarrow> filesystem \<Rightarrow> string \<Rightarrow> error + (diag list \<times> obj option)" where
  "getPostData e fs file =
     (case readFileSync fs file of
        Inl err \<Rightarrow> Inl err
      | Inr fileContents \<Rightarrow>
          (case tryBlock e file fileContents of
             Inl ex \<Rightarrow> Inr ([Failure ex], None)
           | Inr post \<Rightarrow> Inr ([], Some post)))"

text \<open>The comparator handed to \<open>sort\<close>.\<close>

definition byDate :: "engine \<Rightarrow> obj \<Rightarrow> obj \<Rightarrow> int" where
  "byDate e a b = (if js_lt e (getProp a ''date'') (getProp b ''date'') then 1 else - 1)"

text \<open>\<open>(p) => p?.published\<close>, as the filter reads it.\<close>

definition isPublished :: "obj option \<Rightarrow> bool" where
  "isPublished p = (case p of None \<Rightarrow> False | Some post \<Rightarrow> ToBoolean (getProp post ''published''))"

text \<open>
  \<open>Promise.all\<close> over promises that are all settled when it is called: the first rejection
  in array order, or all the values.
\<close>

fun firstRejection :: "(error + 'a) list \<Rightarrow> error option" where
  "firstRejection [] = None"
| "firstRejection (Inl err # rs) = Some err"
| "firstRejection (Inr v # rs) = firstRejection rs"

fun fulfilled :: "(error + 'a) list \<Rightarrow> 'a list" where
  "fulfilled [] = []"
| "fulfilled (Inl err # rs) = fulfilled rs"
| "fulfilled (Inr v # rs) = v # fulfilled rs"

text \<open>
  \<open>getSortedPostsData\<close>. \<open>map(getPostData)\<close> calls the function for every file before
  \<open>Promise.all\<close> looks at the promises, so the console has the lines of every file that
  was read, whatever the result. The result is \<open>Inl\<close> when the promise rejects.
\<close>

definition getSortedPostsData :: "engine \<Rightarrow> filesystem \<Rightarrow> diag list \<times> (error + obj list)" where
  "getSortedPostsData e fs =
     (case readdirSync fs of
        Inl err \<Rightarrow> ([], Inl err)
      | Inr fileNames \<Rightarrow>
          (let promises = map (getPostData e fs) (filter (\<lambda>f. endsWith f ''.md'') fileNames);
               console = concat (map fst (fulfilled promises))
           in case firstRejection promises of
                Some err \<Rightarrow> (console, Inl err)
              | None \<Rightarrow>
                  (let allPostsData = map snd (fulfilled promises)
                   in (console,
                       Inr (Array_sort e (byDate e)
                             (map the (filter isPublished allPostsData)))))))"

text \<open>The array that \<open>getSortedPostsData\<close> hands to \<open>sort\<close>, for the names that
  \<open>readdirSync\<close> gave.\<close>

definition publishedPosts :: "engine \<Rightarrow> filesystem \<Rightarrow> string list \<Rightarrow> obj list" where
  "publishedPosts e fs fileNames =
     map the (filter isPublished (map snd (fulfilled
       (map (getPostData e fs) (filter (\<lambda>f. endsWith f ''.md'') fileNames)))))"

text \<open>\<open>JSON.stringify\<close> leaves out the properties whose value is \<open>undefined\<close>.\<close>

definition stringified :: "obj \<Rightarrow> obj" where
  "stringified post = filter (\<lambda>kv. snd kv \<noteq> JUndefined) post"

text \<open>
  \<open>markdownToJson\<close>: the console, and either the error the returned promise rejects with
  or the posts written to the target file (the text encoding of the values is not
  modelled). The call at the end of the script is not awaited, so its \<open>catch\<close> never sees
  a rejection.
\<close>

definition markdownToJson :: "engine \<Rightarrow> filesystem \<Rightarrow> diag list \<times> (error + obj list)" where
  "markdownToJson e fs =
     (case getSortedPostsData e fs of
        (console, Inl err) \<Rightarrow> (console, Inl err)
      | (console, Inr posts) \<Rightarrow>
          (let console' = console @ map (\<lambda>p. Listed (getProp p ''slug'')) posts
           in case writeFileSync fs of
                Some err \<Rightarrow> (console', Inl err)
              | None \<Rightarrow> (console', Inr (map stringified posts))))"

subsection \<open>What the theorems ask of the engine's sort\<close>

text \<open>
  The language standard fixes the result of \<open>sort\<close> only for a consistent comparator, one
  that answers 0 for an element and itself; \<open>byDate\<close> never answers 0. So the theorems say
  what they need from the engine. That the result is a rearrangement of the array holds
  for every engine.
\<close>

definition permutes :: "(('a \<Rightarrow> 'a \<Rightarrow> int) \<Rightarrow> 'a list \<Rightarrow> 'a list) \<Rightarrow> bool" where
  "permutes srt \<longleftrightarrow> (\<forall>c xs. mset (srt c xs) = mset xs)"

text \<open>
  A comparator is truthful for an order \<open>le\<close> on a set when each of its answers is true
  of \<open>le\<close>: negative only when the first argument may come first, positive only when the
  second may, zero only when both may.
\<close>

definition truthful :: "('a \<Rightarrow> 'a \<Rightarrow> int) \<Rightarrow> ('a \<Rightarrow> 'a \<Rightarrow> bool) \<Rightarrow> 'a set \<Rightarrow> bool" where
  "truthful c le A \<longleftrightarrow>
     (\<forall>x\<in>A. \<forall>y\<in>A. (c x y < 0 \<longrightarrow> le x y) \<and> (0 < c x y \<longrightarrow> le y x) \<and> (c x y = 0 \<longrightarrow> le x y \<and> le y x))"

definition transitiveOn :: "('a \<Rightarrow> 'a \<Rightarrow> bool) \<Rightarrow> 'a set \<Rightarrow> bool" where
  "transitiveOn le A \<longleftrightarrow> (\<forall>x\<in>A. \<forall>y\<in>A. \<forall>z\<in>A. le x y \<longrightarrow> le y z \<longrightarrow> le x z)"

text \<open>
  A sort that orders by the answers it gets: whenever the comparator is truthful for a
  transitive order on the elements, the result is in that order. The two insertion sorts
  below are of this kind; they hand the new and the placed element to the comparator in
  opposite orders.
\<close>

definition ordersByAnswers :: "(('a \<Rightarrow> 'a \<Rightarrow> int) \<Rightarrow> 'a list \<Rightarrow> 'a list) \<Rightarrow> bool" where
  "ordersByAnswers srt \<longleftrightarrow>
     permutes srt \<and>
     (\<forall>c le xs. transitiveOn le (set xs) \<and> truthful c le (set xs) \<longrightarrow> sorted_wrt le (srt c xs))"

subsection \<open>An engine to run the script on\<close>

text \<open>
  The examples below evaluate the script. They use this engine: an insertion sort that
  puts an element before the first one for which the comparator, asked about the new
  element and that one, answers a negative number; \<open>Date.parse\<close> for
  the date-only form \<open>YYYY-MM-DD\<close> of the standard's format (read as UTC, NaN for every
  other string), a renderer that wraps the text in a paragraph, an excerpt that cuts at
  the length asked for, and a front matter parser given as the table of its results on
  the texts of the test files.
\<close>

fun insertBy :: "('a \<Rightarrow> 'a \<Rightarrow> int) \<Rightarrow> 'a \<Rightarrow> 'a list \<Rightarrow> 'a list" where
  "insertBy c x [] = [x]"
| "insertBy c x (y # ys) = (if c x y < 0 then x # y # ys else y # insertBy c x ys)"

definition insertionSort :: "('a \<Rightarrow> 'a \<Rightarrow> int) \<Rightarrow> 'a list \<Rightarrow> 'a list" where
  "insertionSort c xs = foldl (\<lambda>sorted x. insertBy c x sorted) [] xs"

text \<open>
  A second insertion sort, for comparison: it takes the elements in the same order but
  moves each one from the end towards the front, past the elements that the comparator
  ranks after it. \<open>placed\<close> is the sorted part, last element first.
\<close>

fun insertFromEnd :: "('a \<Rightarrow> 'a \<Rightarrow> int) \<Rightarrow> 'a \<Rightarrow> 'a list \<Rightarrow> 'a list" where
  "insertFromEnd c x [] = [x]"
| "insertFromEnd c x (t # ts) = (if 0 < c t x then t # insertFromEnd c x ts else x # t # ts)"

definition insertionSortFromEnd :: "('a \<Rightarrow> 'a \<Rightarrow> int) \<Rightarrow> 'a list \<Rightarrow> 'a list" where
  "insertionSortFromEnd c xs = rev (foldl (\<lambda>placed x. insertFromEnd c x placed) [] xs)"

definition digitOf :: "char \<Rightarrow> nat option" where
  "digitOf c = (let n = of_char c in if 48 \<le> n \<and> n \<le> 57 then Some (n - 48) else None)"

fun decimal :: "nat \<Rightarrow> string \<Rightarrow> nat option" where
  "decimal acc [] = Some acc"
| "decimal acc (c # cs) =
     (case digitOf c of None \<Rightarrow> None | Some d \<Rightarrow> decimal (10 * acc + d) cs)"

text \<open>Days from 1970-01-01 to a day of the proleptic Gregorian calendar.\<close>

definition daysFromCivil :: "int \<Rightarrow> int \<Rightarrow> int \<Rightarrow> int" where
  "daysFromCivil y m d =
     (let y' = (if m \<le> 2 then y - 1 else y);
          era = y' div 400;
          yoe = y' - era * 400;
          doy = (153 * ((m + 9) mod 12) + 2) div 5 + d - 1;
          doe = yoe * 365 + yoe div 4 - yoe div 100 + doy
      in era * 146097 + doe - 719468)"

definition isoDate :: "string \<Rightarrow> jsnum" where
  "isoDate s =
     (if length s = 10 \<and> s ! 4 = CHR ''-'' \<and> s ! 7 = CHR ''-'' then
        (case (decimal 0 (take 4 s), decimal 0 (take 2 (drop 5 s)), decimal 0 (drop 8 s)) of
           (Some y, Some m, Some d) \<Rightarrow>
             (if 1 \<le> m \<and> m \<le> 12 \<and> 1 \<le> d \<and> d \<le> 31
              then Fin (of_int (daysFromCivil (int y) (int m) (int d) * 86400000))
              else NaN)
         | _ \<Rightarrow> NaN)
      else NaN)"

definition helloText :: string where
  "helloText = ''---\<newline>title: Hello\<newline>published: true\<newline>tags: a, b , c\<newline>---\<newline>Hello *world*''"

definition draftText :: string where
  "draftText = ''---\<newline>title: Draft\<newline>published: false\<newline>---\<newline>Soon''"

definition notesText :: string where
  "notesText = ''---\<newline>title: Notes\<newline>---\<newline>Later''"

definition brokenText :: string where
  "brokenText = ''---\<newline>title: [unclosed\<newline>---\<newline>Text''"

definition datedText :: string where
  "datedText = ''---\<newline>title: Dated\<newline>published: true\<newline>date: 2018-09-22\<newline>---\<newline>Old''"

definition aboutText :: string where
  "aboutText = ''---\<newline>title: About\<newline>published: true\<newline>---\<newline>Me''"

definition yearText :: string where
  "yearText = ''---\<newline>title: Review\<newline>published: true\<newline>tags: 2020\<newline>---\<newline>Year''"

definition gapText :: string where
  "gapText = ''---\<newline>title: Gap\<newline>published: true\<newline>tags: a,,b\<newline>---\<newline>Gap''"

definition listText :: string where
  "listText = ''---\<newline>title: Borrow\<newline>published: true\<newline>tags: [rust, beginners]\<newline>---\<newline>Rust''"

definition quotedText :: string where
  "quotedText = ''---\<newline>title: Quoted\<newline>published: \"false\"\<newline>---\<newline>Text''"

definition testFrontMatter :: "string \<Rightarrow> error + (obj \<times> string)" where
  "testFrontMatter text =
     (if text = helloText then
        Inr ([(''title'', JStr ''Hello''), (''published'', JBool True), (''tags'', JStr ''a, b , c'')],
             ''\<newline>Hello *world*'')
      else if text = draftText then
        Inr ([(''title'', JStr ''Draft''), (''published'', JBool False)], ''\<newline>Soon'')
      else if text = notesText then
        Inr ([(''title'', JStr ''Notes'')], ''\<newline>Later'')
      else if text = brokenText then
        Inl (LibraryError ''YAMLException: unexpected end of the stream within a flow sequence'')
      else if text = datedText then
        Inr ([(''title'', JStr ''Dated''), (''published'', JBool True),
              (''date'', JDate (Fin 1537574400000))], ''\<newline>Old'')
      else if text = aboutText then
        Inr ([(''title'', JStr ''About''), (''published'', JBool True)], ''\<newline>Me'')
      else if text = yearText then
        Inr ([(''title'', JStr ''Review''), (''published'', JBool True), (''tags'', JNum (Fin 2020))],
             ''\<newline>Year'')
      else if text = gapText then
        Inr ([(''title'', JStr ''Gap''), (''published'', JBool True), (''tags'', JStr ''a,,b'')],
             ''\<newline>Gap'')
      else if text = listText then
        Inr ([(''title'', JStr ''Borrow''), (''published'', JBool True),
              (''tags'', JArr [JStr ''rust'', JStr ''beginners''])],
             ''\<newline>Rust'')
      else if text = quotedText then
        Inr ([(''title'', JStr ''Quoted''), (''published'', JStr ''false'')], ''\<newline>Text'')
      else Inr ([], text))"

definition testEngine :: engine where
  "testEngine =
     \<lparr> frontMatter = testFrontMatter,
       Marked_parse = (\<lambda>markdown. Inr (''<p>'' @ markdown @ ''</p>'')),
       excerptHtml = (\<lambda>html pruneLength. Inr (take pruneLength html)),
       Date_parse = isoDate,
       StringToNumber = (\<lambda>s. case decimal 0 s of None \<Rightarrow> NaN | Some n \<Rightarrow> Fin (of_nat n)),
       ObjectToString = (\<lambda>v. ''[object Object]''),
       Array_sort = insertionSort \<rparr>"

definition testEngineFromEnd :: engine where
  "testEngineFromEnd = testEngine \<lparr> Array_sort := insertionSortFromEnd \<rparr>"

text \<open>A content directory with the given files, in scan order, and a writable target.\<close>

definition directory :: "(string \<times> string) list \<Rightarrow> filesystem" where
  "directory files =
     \<lparr> readdirSync = Inr (map fst files),
       readFileSync = (\<lambda>f. case map_of files f of
                              None \<Rightarrow> Inl (SystemError ''ENOENT'')
                            | Some text \<Rightarrow> Inr text),
       writeFileSync = None \<rparr>"

text \<open>The test directories.\<close>

definition sampleDir :: filesystem where
  "sampleDir = directory
     [(''2020-01-05-example.md'', helloText), (''broken.md'', brokenText),
      (''draft.md'', draftText), (''notes.md'', notesText), (''README.txt'', helloText)]"


definition aboutDir :: filesystem where
  "aboutDir = directory [(''about.md'', aboutText), (''2020-01-05-example.md'', helloText)]"

definition listDir :: filesystem where
  "listDir = directory [(''borrow.md'', listText)]"

definition quotedDir :: filesystem where
  "quotedDir = directory [(''quoted.md'', quotedText)]"

definition gapDir :: filesystem where
  "gapDir = directory [(''gap.md'', gapText)]"

definition tieDir :: filesystem where
  "tieDir = directory [(''a.md'', datedText), (''b.md'', datedText)]"

definition datedDir :: filesystem where
  "datedDir = directory [(''old.md'', datedText), (''2020-01-05-example.md'', helloText)]"

text \<open>A directory that lists a file which cannot be read.\<close>

definition lockedDir :: filesystem where
  "lockedDir =
     \<lparr> readdirSync = Inr [''2020-01-05-example.md'', ''locked.md''],
       readFileSync = (\<lambda>f. if f = ''2020-01-05-example.md'' then Inr helloText
                            else Inl (SystemError ''EACCES: permission denied'')),
       writeFileSync = None \<rparr>"

text \<open>
  The post objects that \<open>getPostData\<close> builds from the test files, with their properties
  in insertion order. \<open>tags\<close> is \<open>undefined\<close> where the header has none; the written
  feed leaves such a property out.
\<close>

definition helloPost :: obj where
  "helloPost =
     [(''title'', JStr ''Hello''), (''published'', JBool True),
      (''tags'', JArr [JStr ''a'', JStr ''b'', JStr ''c'']),
      (''__content'', JStr ''\<newline>Hello *world*''),
      (''slug'', JStr ''2020-01-05-example.md''),
      (''contentHtml'', JStr ''<p>\<newline>Hello *world*</p>''),
      (''excerptHtml'', JStr ''<p>\<newline>Hello *world*</p>''),
      (''date'', JNum (Fin 1578182400000))]"

definition aboutPost :: obj where
  "aboutPost =
     [(''title'', JStr ''About''), (''published'', JBool True),
      (''__content'', JStr ''\<newline>Me''),
      (''slug'', JStr ''about.md''),
      (''contentHtml'', JStr ''<p>\<newline>Me</p>''),
      (''excerptHtml'', JStr ''<p>\<newline>Me</p>''),
      (''tags'', JUndefined),
      (''date'', JNum NaN)]"

definition gapPost :: obj where
  "gapPost =
     [(''title'', JStr ''Gap''), (''published'', JBool True),
      (''tags'', JArr [JStr ''a'', JStr [], JStr ''b'']),
      (''__content'', JStr ''\<newline>Gap''),
      (''slug'', JStr ''gap.md''),
      (''contentHtml'', JStr ''<p>\<newline>Gap</p>''),
      (''excerptHtml'', JStr ''<p>\<newline>Gap</p>''),
      (''date'', JNum NaN)]"

definition quotedPost :: obj where
  "quotedPost =
     [(''title'', JStr ''Quoted''), (''published'', JStr ''false''),
      (''__content'', JStr ''\<newline>Text''),
      (''slug'', JStr ''quoted.md''),
      (''contentHtml'', JStr ''<p>\<newline>Text</p>''),
      (''excerptHtml'', JStr ''<p>\<newline>Text</p>''),
      (''tags'', JUndefined),
      (''date'', JNum NaN)]"

definition datedPost :: "string \<Rightarrow> obj" where
  "datedPost file =
     [(''title'', JStr ''Dated''), (''published'', JBool True),
      (''date'', JDate (Fin 1537574400000)),
      (''__content'', JStr ''\<newline>Old''),
      (''slug'', JStr file),
      (''contentHtml'', JStr ''<p>\<newline>Old</p>''),
      (''excerptHtml'', JStr ''<p>\<newline>Old</p>''),
      (''tags'', JUndefined)]"

subsection \<open>Auxiliary notions\<close>

text \<open>\<open>pieces.join(c)\<close>, the inverse of \<open>split\<close>.\<close>

fun joinWith :: "char \<Rightarrow> string list \<Rightarrow> string" where
  "joinWith c [] = []"
| "joinWith c [w] = w"
| "joinWith c (w # v # ws) = w @ c # joinWith c (v # ws)"

text \<open>A date that is a number: a \<open>Date\<close> object or a number, other than NaN.\<close>

fun isTimestamp :: "jsval \<Rightarrow> bool" where
  "isTimestamp (JNum t) = (t \<noteq> NaN)"
| "isTimestamp (JDate t) = (t \<noteq> NaN)"
| "isTimestamp v = False"

fun timeValue :: "jsval \<Rightarrow> jsnum" where
  "timeValue (JNum t) = t"
| "timeValue (JDate t) = t"
| "timeValue v = NaN"


text \<open>A name of the scan that ends up in the array handed to \<open>sort\<close>: a content file whose
  post object was built and whose \<open>published\<close> counts as true.\<close>

definition ingests :: "engine \<Rightarrow> filesystem \<Rightarrow> string \<Rightarrow> bool" where
  "ingests e fs f \<longleftrightarrow>
     endsWith f ''.md'' \<and>
     isPublished (case getPostData e fs f of Inl err \<Rightarrow> None | Inr r \<Rightarrow> snd r)"

section \<open>Properties\<close>

lemma split_nonempty: "split c s \<noteq> []"
  by (induction s) (auto split: list.splits)

subsection \<open>Objects and the post literal\<close>

lemma getProp_set_prop:
  "getProp (set_prop k v ob) k' = (if k' = k then v else getProp ob k')"
  by (simp add: getProp_def set_prop_def update_conv')

lemma getProp_stringified:
  "getProp ob k \<noteq> JUndefined \<Longrightarrow> getProp (stringified ob) k = getProp ob k"
  by (induction ob) (auto simp: getProp_def stringified_def split: option.splits)

lemma loadFront_Inr:
  "loadFront e text = Inr h \<longleftrightarrow>
     (\<exists>conf rest. frontMatter e text = Inr (conf, rest) \<and> h = set_prop ''__content'' (JStr rest) conf)"
  by (auto simp: loadFront_def split: sum.splits)

lemma tryBlock_Inr:
  "tryBlock e file text = Inr post \<longleftrightarrow>
     (\<exists>conf rest html ex tags.
        frontMatter e text = Inr (conf, rest) \<and>
        Marked_parse e rest = Inr html \<and>
        excerptHtml e html 250 = Inr ex \<and>
        tagsOf (getProp conf ''tags'') = Inr tags \<and>
        post = postLiteral (set_prop ''__content'' (JStr rest) conf) file html ex tags
                 (dateOf e file (getProp conf ''date'')))"
  by (auto simp: tryBlock_def loadFront_def getProp_set_prop Let_def split: sum.splits jsval.splits)

lemma postLiteral_props:
  "getProp (postLiteral h file html ex tags date) ''slug'' = JStr file"
  "getProp (postLiteral h file html ex tags date) ''contentHtml'' = JStr html"
  "getProp (postLiteral h file html ex tags date) ''excerptHtml'' = JStr ex"
  "getProp (postLiteral h file html ex tags date) ''tags'' = tags"
  "getProp (postLiteral h file html ex tags date) ''date'' = date"
  "getProp (postLiteral h file html ex tags date) ''published'' = getProp h ''published''"
  "getProp (postLiteral h file html ex tags date) ''__content'' = getProp h ''__content''"
  by (simp_all add: postLiteral_def getProp_set_prop)

lemma no_rejection: "firstRejection ps = None \<Longrightarrow> map Inr (fulfilled ps) = ps"
  by (induction ps rule: firstRejection.induct) auto

subsection \<open>The shape of a successful build\<close>

lemma firstRejection_None_iff: "firstRejection ps = None \<longleftrightarrow> (\<forall>p\<in>set ps. \<exists>v. p = Inr v)"
  by (induction ps rule: firstRejection.induct) auto

lemma getSortedPostsData_Inr:
  "getSortedPostsData e fs = (console, Inr posts) \<longleftrightarrow>
     (\<exists>fileNames. readdirSync fs = Inr fileNames \<and>
        firstRejection (map (getPostData e fs) (filter (\<lambda>f. endsWith f ''.md'') fileNames)) = None \<and>
        console = concat (map fst (fulfilled
          (map (getPostData e fs) (filter (\<lambda>f. endsWith f ''.md'') fileNames)))) \<and>
        posts = Array_sort e (byDate e) (publishedPosts e fs fileNames))"
  by (auto simp: getSortedPostsData_def publishedPosts_def Let_def split: sum.splits option.splits)

lemma markdownToJson_Inr:
  "markdownToJson e fs = (console, Inr feed) \<longleftrightarrow>
     (\<exists>log posts. getSortedPostsData e fs = (log, Inr posts) \<and> writeFileSync fs = None \<and>
        console = log @ map (\<lambda>p. Listed (getProp p ''slug'')) posts \<and>
        feed = map stringified posts)"
  by (auto simp: markdownToJson_def Let_def split: sum.splits option.splits prod.splits)

lemma getPostData_Some:
  "getPostData e fs f = Inr (l, Some p) \<longleftrightarrow>
     (\<exists>text. readFileSync fs f = Inr text \<and> tryBlock e f text = Inr p \<and> l = [])"
  by (auto simp: getPostData_def split: sum.splits)

lemma getPostData_slug: "getPostData e fs f = Inr (l, Some p) \<Longrightarrow> getProp p ''slug'' = JStr f"
  by (auto simp: getPostData_Some tryBlock_Inr postLiteral_props)

lemma publishedPosts_Nil: "publishedPosts e fs [] = []"
  by (simp add: publishedPosts_def)

lemma publishedPosts_Cons:
  "publishedPosts e fs (f # names) =
     (if endsWith f ''.md'' then
        (case getPostData e fs f of
           Inr (l, Some p) \<Rightarrow>
             if ToBoolean (getProp p ''published'') then p # publishedPosts e fs names
             else publishedPosts e fs names
         | _ \<Rightarrow> publishedPosts e fs names)
      else publishedPosts e fs names)"
  by (auto simp: publishedPosts_def isPublished_def split: sum.splits option.splits)

lemma publishedPosts_set:
  "p \<in> set (publishedPosts e fs names) \<longleftrightarrow>
     (\<exists>f\<in>set names. endsWith f ''.md'' \<and> (\<exists>l. getPostData e fs f = Inr (l, Some p)) \<and>
        ToBoolean (getProp p ''published''))"
  by (induction names)
     (auto simp: publishedPosts_Nil publishedPosts_Cons split: sum.splits option.splits)

lemma publishedPosts_slugs:
  "map (\<lambda>p. getProp p ''slug'') (publishedPosts e fs names) = map JStr (filter (ingests e fs) names)"
  by (induction names)
     (auto simp: publishedPosts_Nil publishedPosts_Cons ingests_def isPublished_def getPostData_slug
           split: sum.splits option.splits)

lemma build_feed:
  assumes build: "markdownToJson e fs = (console, Inr feed)"
    and scan: "readdirSync fs = Inr fileNames"
  shows "feed = map stringified (Array_sort e (byDate e) (publishedPosts e fs fileNames))"
proof -
  from build obtain log posts where g: "getSortedPostsData e fs = (log, Inr posts)"
    and feed: "feed = map stringified posts"
    unfolding markdownToJson_Inr by blast
  from g obtain names where "readdirSync fs = Inr names"
    and "posts = Array_sort e (byDate e) (publishedPosts e fs names)"
    unfolding getSortedPostsData_Inr by blast
  with scan feed show ?thesis by simp
qed

lemma published_slug_kept:
  assumes "p \<in> set (publishedPosts e fs fileNames)"
  shows "getProp (stringified p) ''slug'' = getProp p ''slug''"
proof -
  from assms obtain f l where "getPostData e fs f = Inr (l, Some p)"
    unfolding publishedPosts_set by blast
  then have "getProp p ''slug'' = JStr f" by (rule getPostData_slug)
  then show ?thesis by (simp add: getProp_stringified)
qed

lemma feed_slugs:
  assumes build: "markdownToJson e fs = (console, Inr feed)"
    and scan: "readdirSync fs = Inr fileNames"
    and srt: "permutes (Array_sort e)"
  shows "mset (map (\<lambda>p. getProp p ''slug'') feed) = mset (map JStr (filter (ingests e fs) fileNames))"
proof -
  define posts where "posts = Array_sort e (byDate e) (publishedPosts e fs fileNames)"
  have feed: "feed = map stringified posts"
    unfolding posts_def using build scan by (rule build_feed)
  from srt have perm: "mset posts = mset (publishedPosts e fs fileNames)"
    by (simp add: permutes_def posts_def)
  then have sets: "set posts = set (publishedPosts e fs fileNames)"
    by (rule mset_eq_setD)
  have "\<forall>p\<in>set posts. getProp (stringified p) ''slug'' = getProp p ''slug''"
    unfolding sets using published_slug_kept by blast
  then have "map (\<lambda>p. getProp p ''slug'') feed = map (\<lambda>p. getProp p ''slug'') posts"
    unfolding feed by simp
  then have "mset (map (\<lambda>p. getProp p ''slug'') feed) = image_mset (\<lambda>p. getProp p ''slug'') (mset posts)"
    by simp
  also have "\<dots> = mset (map (\<lambda>p. getProp p ''slug'') (publishedPosts e fs fileNames))"
    unfolding perm by simp
  also have "\<dots> = mset (map JStr (filter (ingests e fs) fileNames))"
    unfolding publishedPosts_slugs ..
  finally show ?thesis .
qed

lemma count_map_filter: "count (mset (map f xs)) y = length (filter (\<lambda>x. f x = y) xs)"
  by (induction xs) auto

lemma tagsOf_Inr:
  "(\<exists>tags. tagsOf t = Inr tags) \<longleftrightarrow> nullish t \<or> (\<exists>s. t = JStr s)"
  by (cases t) (simp_all add: tagsOf_def)

lemma valid_file_ingests:
  assumes entry: "endsWith file ''.md''" "readFileSync fs file = Inr text"
    and header: "frontMatter e text = Inr (conf, rest)" "ToBoolean (getProp conf ''published'')"
      "nullish (getProp conf ''tags'') \<or> (\<exists>s. getProp conf ''tags'' = JStr s)"
    and rendered: "Marked_parse e rest = Inr html" "excerptHtml e html 250 = Inr ex"
  shows "ingests e fs file"
proof -
  from header(3) obtain tags where tags: "tagsOf (getProp conf ''tags'') = Inr tags"
    unfolding tagsOf_Inr [symmetric] by blast
  define post where "post = postLiteral (set_prop ''__content'' (JStr rest) conf) file html ex tags
                 (dateOf e file (getProp conf ''date''))"
  have "tryBlock e file text = Inr post"
    unfolding tryBlock_Inr post_def using header(1) rendered tags by blast
  then have "getPostData e fs file = Inr ([], Some post)"
    by (simp add: getPostData_def entry(2))
  moreover have "getProp post ''published'' = getProp conf ''published''"
    by (simp add: post_def postLiteral_props getProp_set_prop)
  ultimately show ?thesis
    using entry(1) header(2) by (simp add: ingests_def isPublished_def)
qed

subsection \<open>The test engine\<close>

lemma mset_insertBy: "mset (insertBy c x ys) = add_mset x (mset ys)"
  by (induction ys) auto

lemma mset_foldl_insertBy:
  "mset (foldl (\<lambda>sorted x. insertBy c x sorted) acc xs) = mset acc + mset xs"
  by (induction xs arbitrary: acc) (auto simp: mset_insertBy)

lemma permutes_insertionSort: "permutes insertionSort"
  by (simp add: permutes_def insertionSort_def mset_foldl_insertBy)

lemmas run_defs =
  markdownToJson_def getSortedPostsData_def getPostData_def tryBlock_def loadFront_def
  postLiteral_def set_prop_def getProp_def tagsOf_def dateOf_def substring0_def endsWith_def
  isPublished_def stringified_def byDate_def js_lt_def IsLessThan_def insertionSort_def
  insertionSortFromEnd_def trim_def isWhite_def Let_def

lemmas test_defs =
  testEngine_def testEngineFromEnd_def directory_def testFrontMatter_def helloText_def draftText_def notesText_def
  brokenText_def datedText_def aboutText_def yearText_def gapText_def listText_def
  quotedText_def isoDate_def
  helloPost_def aboutPost_def gapPost_def quotedPost_def datedPost_def daysFromCivil_def
  digitOf_def

subsection \<open>Posts of the feed and the files they come from\<close>

lemma feed_member:
  assumes build: "markdownToJson e fs = (console, Inr feed)"
    and srt: "permutes (Array_sort e)"
    and mem: "p \<in> set feed"
  shows "\<exists>file text post. readFileSync fs file = Inr text \<and> endsWith file ''.md'' \<and>
           tryBlock e file text = Inr post \<and> ToBoolean (getProp post ''published'') \<and>
           p = stringified post"
proof -
  from build obtain log posts where g: "getSortedPostsData e fs = (log, Inr posts)"
    and feed: "feed = map stringified posts"
    unfolding markdownToJson_Inr by blast
  from g obtain names where posts: "posts = Array_sort e (byDate e) (publishedPosts e fs names)"
    unfolding getSortedPostsData_Inr by blast
  from srt have "mset posts = mset (publishedPosts e fs names)"
    by (simp add: permutes_def posts)
  then have sets: "set posts = set (publishedPosts e fs names)"
    by (rule mset_eq_setD)
  from mem feed obtain post where "post \<in> set posts" and p: "p = stringified post"
    by auto
  then have "post \<in> set (publishedPosts e fs names)"
    using sets by simp
  then obtain f l where f: "endsWith f ''.md''" "getPostData e fs f = Inr (l, Some post)"
      "ToBoolean (getProp post ''published'')"
    unfolding publishedPosts_set by blast
  from f(2) obtain body where "readFileSync fs f = Inr body" "tryBlock e f body = Inr post"
    unfolding getPostData_Some by blast
  with f p show ?thesis by blast
qed

lemma tryBlock_published:
  assumes "tryBlock e file text = Inr post" "frontMatter e text = Inr (conf, rest)"
  shows "getProp post ''published'' = getProp conf ''published''"
    and "getProp post ''slug'' = JStr file"
    and "getProp post ''__content'' = JStr rest"
  using assms unfolding tryBlock_Inr
  by (auto simp: postLiteral_props getProp_set_prop)

lemma ToBoolean_defined: "ToBoolean v \<Longrightarrow> v \<noteq> JUndefined"
  by (cases v) simp_all


lemma getPostData_valid:
  assumes entry: "readFileSync fs file = Inr text"
    and header: "frontMatter e text = Inr (conf, rest)"
      "nullish (getProp conf ''tags'') \<or> (\<exists>s. getProp conf ''tags'' = JStr s)"
    and rendered: "Marked_parse e rest = Inr html" "excerptHtml e html 250 = Inr ex"
  shows "\<exists>post tags. tagsOf (getProp conf ''tags'') = Inr tags \<and>
           post = postLiteral (set_prop ''__content'' (JStr rest) conf) file html ex tags
                    (dateOf e file (getProp conf ''date'')) \<and>
           tryBlock e file text = Inr post \<and> getPostData e fs file = Inr ([], Some post)"
proof -
  from header(2) obtain tags where tags: "tagsOf (getProp conf ''tags'') = Inr tags"
    unfolding tagsOf_Inr [symmetric] by blast
  define post where "post = postLiteral (set_prop ''__content'' (JStr rest) conf) file html ex tags
                 (dateOf e file (getProp conf ''date''))"
  have t: "tryBlock e file text = Inr post"
    unfolding tryBlock_Inr post_def using header(1) rendered tags by blast
  then have "getPostData e fs file = Inr ([], Some post)"
    by (simp add: getPostData_def entry)
  with t tags post_def show ?thesis by blast
qed

lemma getProp_key: "getProp ob k \<noteq> JUndefined \<Longrightarrow> k \<in> fst ` set ob"
  by (auto simp: getProp_def split: option.splits dest: map_of_SomeD intro: rev_image_eqI)

lemma firstRejection_Some:
  "Inl err \<in> set ps \<Longrightarrow> \<exists>failure. firstRejection ps = Some failure \<and> Inl failure \<in> set ps"
  by (induction ps rule: firstRejection.induct) auto

subsection \<open>\<open>split\<close> and \<open>trim\<close>\<close>

lemma joinWith_Cons: "ws \<noteq> [] \<Longrightarrow> joinWith c (w # ws) = w @ c # joinWith c ws"
  by (cases ws) simp_all

lemma joinWith_Cons_hd: "joinWith c ((x # w) # ws) = x # joinWith c (w # ws)"
  by (cases ws) simp_all

lemma join_split: "joinWith c (split c s) = s"
proof (induction s)
  case Nil
  show ?case by simp
next
  case (Cons x xs)
  show ?case
  proof (cases "x = c")
    case True
    then show ?thesis
      using Cons by (simp add: joinWith_Cons split_nonempty)
  next
    case False
    obtain w ws where "split c xs = w # ws"
      using split_nonempty [of c xs] by (cases "split c xs") auto
    with False Cons show ?thesis
      by (simp add: joinWith_Cons_hd)
  qed
qed

lemma split_no_separator: "w \<in> set (split c s) \<Longrightarrow> c \<notin> set w"
  by (induction s arbitrary: w) (auto split: if_splits list.splits)

lemma length_split: "length (split c s) = Suc (count_list s c)"
  by (induction s) (auto split: list.splits simp: split_nonempty)

lemma dropWhile_parts: "\<exists>l. s = l @ dropWhile P s \<and> (\<forall>c\<in>set l. P c)"
  by (rule exI [of _ "takeWhile P s"]) (auto dest: set_takeWhileD)

lemma trim_strips:
  "\<exists>l r. w = l @ trim w @ r \<and> (\<forall>c\<in>set l. isWhite c) \<and> (\<forall>c\<in>set r. isWhite c) \<and>
         (trim w \<noteq> [] \<longrightarrow> \<not> isWhite (hd (trim w)) \<and> \<not> isWhite (last (trim w)))"
proof -
  define m where "m = dropWhile isWhite w"
  define d where "d = dropWhile isWhite (rev m)"
  define t where "t = rev d"
  obtain l where l: "w = l @ m" "\<forall>c\<in>set l. isWhite c"
    unfolding m_def using dropWhile_parts [of w isWhite] by blast
  obtain r' where r': "rev m = r' @ d" "\<forall>c\<in>set r'. isWhite c"
    unfolding d_def using dropWhile_parts [of "rev m" isWhite] by blast
  have trim: "trim w = t"
    by (simp add: trim_def t_def d_def m_def)
  have "rev (rev m) = rev (r' @ d)"
    using r'(1) by (rule arg_cong)
  then have m: "m = t @ rev r'"
    by (simp add: t_def)
  have w: "w = l @ t @ rev r'"
    using l(1) unfolding m .
  have last: "\<not> isWhite (last t)" if "t \<noteq> []"
  proof -
    from that have ne: "d \<noteq> []" by (simp add: t_def)
    then have "\<not> isWhite (hd d)"
      unfolding d_def by (rule hd_dropWhile)
    with ne show ?thesis by (simp add: t_def last_rev)
  qed
  have hd: "\<not> isWhite (hd t)" if "t \<noteq> []"
  proof -
    from that have "m \<noteq> []" unfolding m by simp
    then have "\<not> isWhite (hd m)"
      unfolding m_def by (rule hd_dropWhile)
    then show ?thesis
      unfolding m using that by simp
  qed
  have "w = l @ t @ rev r' \<and> (\<forall>c\<in>set l. isWhite c) \<and> (\<forall>c\<in>set (rev r'). isWhite c) \<and>
         (t \<noteq> [] \<longrightarrow> \<not> isWhite (hd t) \<and> \<not> isWhite (last t))"
    using w l(2) r'(2) hd last by (simp del: append_assoc)
  then show ?thesis
    unfolding trim by blast
qed

subsection \<open>Sorting by the comparator's answers\<close>

lemma ordersByAnswersD:
  assumes "ordersByAnswers srt" "transitiveOn le (set xs)" "truthful c le (set xs)"
  shows "sorted_wrt le (srt c xs)"
proof -
  from assms(1) have "\<forall>c le xs. transitiveOn le (set xs) \<and> truthful c le (set xs) \<longrightarrow>
      sorted_wrt le (srt c xs)"
    unfolding ordersByAnswers_def by (rule conjunct2)
  note r = this [THEN spec, THEN spec, THEN spec, THEN mp]
  show ?thesis
    by (rule r) (simp add: assms)
qed

lemma set_insertBy: "set (insertBy c x ys) = insert x (set ys)"
  by (induction ys) auto

lemma sorted_insertBy:
  assumes tr: "transitiveOn le A" and tf: "truthful c le A"
    and mem: "x \<in> A" "set ys \<subseteq> A" and srt: "sorted_wrt le ys"
  shows "sorted_wrt le (insertBy c x ys)"
  using mem(2) srt
proof (induction ys)
  case Nil
  show ?case by simp
next
  case (Cons y ys)
  from Cons.prems have y: "y \<in> A" and ys: "set ys \<subseteq> A"
    and below: "\<forall>z\<in>set ys. le y z" and rest: "sorted_wrt le ys"
    by auto
  show ?case
  proof (cases "c x y < 0")
    case True
    with tf mem(1) y have xy: "le x y"
      unfolding truthful_def by blast
    have "le x z" if "z \<in> set ys" for z
    proof -
      from that ys have "z \<in> A" by blast
      moreover from that below have "le y z" by blast
      ultimately show ?thesis
        using tr xy mem(1) y unfolding transitiveOn_def by blast
    qed
    with True xy Cons.prems show ?thesis by auto
  next
    case False
    then have "0 < c x y \<or> c x y = 0" by arith
    with tf mem(1) y have yx: "le y x"
      unfolding truthful_def by blast
    from Cons.IH [OF ys rest] have "sorted_wrt le (insertBy c x ys)" .
    with False yx below show ?thesis
      by (simp add: set_insertBy)
  qed
qed

lemma sorted_foldl_insertBy:
  assumes tr: "transitiveOn le A" and tf: "truthful c le A"
  shows "set acc \<subseteq> A \<Longrightarrow> set xs \<subseteq> A \<Longrightarrow> sorted_wrt le acc \<Longrightarrow>
         sorted_wrt le (foldl (\<lambda>sorted x. insertBy c x sorted) acc xs)"
proof (induction xs arbitrary: acc)
  case Nil
  then show ?case by simp
next
  case (Cons x xs)
  from Cons.prems have x: "x \<in> A" and xs: "set xs \<subseteq> A" by auto
  have "sorted_wrt le (insertBy c x acc)"
    using tr tf x Cons.prems(1,3) by (rule sorted_insertBy)
  moreover have "set (insertBy c x acc) \<subseteq> A"
    using x Cons.prems(1) by (simp add: set_insertBy)
  ultimately show ?case
    using Cons.IH xs by simp
qed

lemma ordersByAnswers_insertionSort: "ordersByAnswers insertionSort"
  unfolding ordersByAnswers_def
proof (intro conjI allI impI)
  show "permutes insertionSort" by (rule permutes_insertionSort)
next
  fix c :: "'a \<Rightarrow> 'a \<Rightarrow> int" and le xs
  assume "transitiveOn le (set xs) \<and> truthful c le (set xs)"
  then have "sorted_wrt le (foldl (\<lambda>sorted x. insertBy c x sorted) [] xs)"
    by (intro sorted_foldl_insertBy [where A = "set xs"]) auto
  then show "sorted_wrt le (insertionSort c xs)"
    by (simp add: insertionSort_def)
qed

lemma mset_insertFromEnd: "mset (insertFromEnd c x ts) = add_mset x (mset ts)"
  by (induction ts) auto

lemma mset_foldl_insertFromEnd:
  "mset (foldl (\<lambda>placed x. insertFromEnd c x placed) acc xs) = mset acc + mset xs"
  by (induction xs arbitrary: acc) (auto simp: mset_insertFromEnd)

lemma insertFromEnd_insertBy:
  "insertFromEnd c x ts = insertBy (\<lambda>x t. if 0 < c t x then 1 else - 1) x ts"
  by (induction ts) auto

lemma ordersByAnswers_insertionSortFromEnd: "ordersByAnswers insertionSortFromEnd"
  unfolding ordersByAnswers_def
proof (intro conjI allI impI)
  show "permutes insertionSortFromEnd"
    by (simp add: permutes_def insertionSortFromEnd_def mset_foldl_insertFromEnd)
next
  fix c :: "'a \<Rightarrow> 'a \<Rightarrow> int" and le xs
  assume a: "transitiveOn le (set xs) \<and> truthful c le (set xs)"
  let ?c = "\<lambda>x t. if 0 < c t x then 1 else - 1 :: int"
  let ?le = "\<lambda>a b. le b a"
  from a have tr: "transitiveOn ?le (set xs)"
    unfolding transitiveOn_def by blast
  have tf: "truthful ?c ?le (set xs)"
    unfolding truthful_def
  proof (intro ballI conjI impI)
    fix x y assume xy: "x \<in> set xs" "y \<in> set xs"
    from a xy have c: "c y x < 0 \<longrightarrow> le y x" "0 < c y x \<longrightarrow> le x y" "c y x = 0 \<longrightarrow> le y x"
      unfolding truthful_def by blast+
    { assume "?c x y < 0"
      then have "c y x < 0 \<or> c y x = 0" by (simp split: if_splits) arith
      with c show "le y x" by blast }
    { assume "0 < ?c x y"
      then have "0 < c y x" by (simp split: if_splits)
      with c show "le x y" by blast }
    { assume z: "?c x y = 0"
      then show "le y x" by (simp split: if_splits)
      from z show "le x y" by (simp split: if_splits) }
  qed
  have "insertionSort ?c xs = foldl (\<lambda>placed x. insertFromEnd c x placed) [] xs"
    by (simp add: insertionSort_def insertFromEnd_insertBy)
  moreover have "sorted_wrt ?le (insertionSort ?c xs)"
    using ordersByAnswers_insertionSort tr tf by (rule ordersByAnswersD)
  ultimately have "sorted_wrt ?le (foldl (\<lambda>placed x. insertFromEnd c x placed) [] xs)"
    by simp
  then show "sorted_wrt le (insertionSortFromEnd c xs)"
    by (simp add: insertionSortFromEnd_def sorted_wrt_rev)
qed

subsection \<open>Dates that are numbers\<close>

lemma not_less_trans:
  "a \<noteq> NaN \<Longrightarrow> b \<noteq> NaN \<Longrightarrow> c \<noteq> NaN \<Longrightarrow> \<not> num_less a b \<Longrightarrow> \<not> num_less b c \<Longrightarrow> \<not> num_less a c"
  by (cases a; cases b; cases c) simp_all

lemma less_asym: "num_less a b \<Longrightarrow> \<not> num_less b a"
  by (cases a; cases b) simp_all

lemma IsLessThan_timestamps:
  assumes "isTimestamp x" "isTimestamp y"
  shows "IsLessThan e x y = Some (num_less (timeValue x) (timeValue y))"
  using assms by (cases x; cases y) (simp_all add: IsLessThan_def)

lemma dateOf_defined: "dateOf e file d \<noteq> JUndefined"
  by (cases d) (simp_all add: dateOf_def)

lemma post_date_kept:
  assumes "tryBlock e file body = Inr post"
  shows "getProp (stringified post) ''date'' = getProp post ''date''"
proof -
  from assms obtain conf where "getProp post ''date'' = dateOf e file (getProp conf ''date'')"
    unfolding tryBlock_Inr by (auto simp: postLiteral_props)
  then have "getProp post ''date'' \<noteq> JUndefined"
    by (simp add: dateOf_defined)
  then show ?thesis by (rule getProp_stringified)
qed

subsection \<open>The comparator\<close>

text \<open>The comparator never answers 0, not even for a post and itself, and for two posts
  of equal date it ranks each before the other.\<close>

lemma str_less_irrefl: "\<not> str_less s s"
  by (induction s) auto

lemma num_less_irrefl: "\<not> num_less a a"
  by (cases a) auto

lemma byDate_nonzero: "byDate e a b \<noteq> 0"
  by (simp add: byDate_def)

lemma byDate_self: "byDate e a a = - 1"
proof -
  have "IsLessThan e x x \<noteq> Some True" for x
    by (cases "ToPrimitive e x")
       (simp_all add: IsLessThan_def Let_def str_less_irrefl num_less_irrefl)
  then show ?thesis
    by (simp add: byDate_def js_lt_def)
qed

lemma byDate_equal_dates:
  assumes "isTimestamp (getProp a ''date'')" "isTimestamp (getProp b ''date'')"
    and "timeValue (getProp a ''date'') = timeValue (getProp b ''date'')"
  shows "byDate e a b = - 1 \<and> byDate e b a = - 1"
  using assms
  by (simp add: byDate_def js_lt_def IsLessThan_timestamps num_less_irrefl)

subsection \<open>One entry per published file\<close>

text \<open>
  C1, as amended. When the build writes a feed, every content file of the scan (a name ending in
  \<open>.md\<close>) that can be read, whose front matter parses, whose \<open>published\<close> is \<open>true\<close>,
  whose \<open>tags\<close> field is missing, null or a string, and whose body renders, has exactly
  one entry in the feed with its file name as \<open>slug\<close>; and no two entries of the feed
  share a slug. The names of a directory scan are distinct.
\<close>

theorem published_file_has_one_entry:
  assumes build: "markdownToJson e fs = (console, Inr feed)"
    and scan: "readdirSync fs = Inr fileNames" "distinct fileNames"
    and srt: "permutes (Array_sort e)"
    and entry: "file \<in> set fileNames" "endsWith file ''.md''" "readFileSync fs file = Inr text"
    and header: "frontMatter e text = Inr (conf, rest)" "getProp conf ''published'' = JBool True"
      "nullish (getProp conf ''tags'') \<or> (\<exists>s. getProp conf ''tags'' = JStr s)"
    and rendered: "Marked_parse e rest = Inr html" "excerptHtml e html 250 = Inr ex"
  shows "length (filter (\<lambda>p. getProp p ''slug'' = JStr file) feed) = 1 \<and>
         distinct (map (\<lambda>p. getProp p ''slug'') feed)"
proof -
  let ?slugs = "map (\<lambda>p. getProp p ''slug'') feed"
  let ?names = "map JStr (filter (ingests e fs) fileNames)"
  have eq: "mset ?slugs = mset ?names"
    using build scan(1) srt by (rule feed_slugs)
  have dn: "distinct ?names"
    using scan(2) by (simp add: distinct_map inj_on_def)
  have ds: "distinct ?slugs"
    using mset_eq_imp_distinct_iff [OF eq] dn by simp
  have pub: "ToBoolean (getProp conf ''published'')"
    by (simp add: header(2))
  have "ingests e fs file"
    using entry(2,3) header(1) pub header(3) rendered by (rule valid_file_ingests)
  with entry(1) have "JStr file \<in> set ?names" by simp
  then have "JStr file \<in> set ?slugs" using mset_eq_setD [OF eq] by simp
  with ds have "count (mset ?slugs) (JStr file) = 1"
    by (simp only: distinct_count_atmost_1 if_True)
  moreover have "count (mset ?slugs) (JStr file) = length (filter (\<lambda>p. getProp p ''slug'' = JStr file) feed)"
    by (rule count_map_filter)
  ultimately have "length (filter (\<lambda>p. getProp p ''slug'' = JStr file) feed) = 1"
    by simp
  with ds show ?thesis by simp
qed


theorem published_file_has_one_entry_witness:
  "\<exists>console feed.
     markdownToJson testEngine sampleDir = (console, Inr feed) \<and>
     length (filter (\<lambda>p. getProp p ''slug'' = JStr ''2020-01-05-example.md'') feed) = 1 \<and>
     distinct (map (\<lambda>p. getProp p ''slug'') feed)"
proof -
  obtain console feed where build: "markdownToJson testEngine sampleDir = (console, Inr feed)"
    by (simp add: run_defs test_defs sampleDir_def)
  have "length (filter (\<lambda>p. getProp p ''slug'' = JStr ''2020-01-05-example.md'') feed) = 1 \<and>
        distinct (map (\<lambda>p. getProp p ''slug'') feed)"
  proof (rule published_file_has_one_entry [OF build])
    show "readdirSync sampleDir =
        Inr [''2020-01-05-example.md'', ''broken.md'', ''draft.md'', ''notes.md'', ''README.txt'']"
      by (simp add: sampleDir_def directory_def)
    show "distinct [''2020-01-05-example.md'', ''broken.md'', ''draft.md'', ''notes.md'', ''README.txt'']"
      by simp
    show "permutes (Array_sort testEngine)"
      by (simp add: testEngine_def permutes_insertionSort)
    show "''2020-01-05-example.md''
        \<in> set [''2020-01-05-example.md'', ''broken.md'', ''draft.md'', ''notes.md'', ''README.txt'']"
      by simp
    show "endsWith ''2020-01-05-example.md'' ''.md''"
      by (simp add: endsWith_def)
    show "readFileSync sampleDir ''2020-01-05-example.md'' = Inr helloText"
      by (simp add: sampleDir_def directory_def)
    show "frontMatter testEngine helloText =
        Inr ([(''title'', JStr ''Hello''), (''published'', JBool True), (''tags'', JStr ''a, b , c'')],
             ''\<newline>Hello *world*'')"
      by (simp add: testEngine_def testFrontMatter_def)
    show "getProp [(''title'', JStr ''Hello''), (''published'', JBool True), (''tags'', JStr ''a, b , c'')]
        ''published'' = JBool True"
      by (simp add: getProp_def)
    show "nullish (getProp [(''title'', JStr ''Hello''), (''published'', JBool True),
            (''tags'', JStr ''a, b , c'')] ''tags'') \<or>
          (\<exists>s. getProp [(''title'', JStr ''Hello''), (''published'', JBool True),
            (''tags'', JStr ''a, b , c'')] ''tags'' = JStr s)"
      by (simp add: getProp_def)
    show "Marked_parse testEngine ''\<newline>Hello *world*'' = Inr ''<p>\<newline>Hello *world*</p>''"
      by (simp add: testEngine_def)
    show "excerptHtml testEngine ''<p>\<newline>Hello *world*</p>'' 250 = Inr ''<p>\<newline>Hello *world*</p>''"
      by (simp add: testEngine_def)
  qed
  with build show ?thesis by blast
qed

text \<open>
  The claim asks only for a well-formed header and \<open>published: true\<close>. A published file
  whose header parses and gives \<open>tags\<close> as a list, the type the script itself declares
  for the field, has no entry: a list has no \<open>split\<close>, the call throws inside the \<open>try\<close>
  block, and the file is skipped with a failure line.
\<close>

theorem list_tags_counterexample:
  "endsWith ''borrow.md'' ''.md'' \<and>
   readFileSync listDir ''borrow.md'' = Inr listText \<and>
   frontMatter testEngine listText =
     Inr ([(''title'', JStr ''Borrow''), (''published'', JBool True),
           (''tags'', JArr [JStr ''rust'', JStr ''beginners''])],
          ''\<newline>Rust'') \<and>
   markdownToJson testEngine listDir =
     ([Failure (TypeError ''yamlHeader.tags.split is not a function'')], Inr [])"
  by (simp add: run_defs test_defs listDir_def)

subsection \<open>No entry for an unpublished file\<close>

text \<open>
  C2, as amended. When the build writes a feed, a file whose front matter has
  \<open>published: false\<close> or no \<open>published\<close> at all has no entry in the feed under its
  slug, and every post of the feed has a \<open>published\<close> that counts as true (it passed the
  filter \<open>p?.published\<close>); where it is a boolean, it is \<open>true\<close>.
\<close>

theorem unpublished_file_has_no_entry:
  assumes build: "markdownToJson e fs = (console, Inr feed)"
    and srt: "permutes (Array_sort e)"
    and entry: "readFileSync fs file = Inr text" "frontMatter e text = Inr (conf, rest)"
    and flag: "getProp conf ''published'' = JBool False \<or> getProp conf ''published'' = JUndefined"
  shows "(\<forall>p\<in>set feed. getProp p ''slug'' \<noteq> JStr file) \<and>
         (\<forall>p\<in>set feed. ToBoolean (getProp p ''published'') \<and>
            (\<forall>b. getProp p ''published'' = JBool b \<longrightarrow> b))"
proof -
  have pub: "ToBoolean (getProp p ''published'')" and src: "getProp p ''slug'' \<noteq> JStr file"
    if mem: "p \<in> set feed" for p
  proof -
    from feed_member [OF build srt mem] obtain f t post where
      f: "readFileSync fs f = Inr t" "tryBlock e f t = Inr post"
         "ToBoolean (getProp post ''published'')" "p = stringified post"
      by blast
    from f(3) have "getProp post ''published'' \<noteq> JUndefined"
      by (rule ToBoolean_defined)
    then have same: "getProp p ''published'' = getProp post ''published''"
      unfolding f(4) by (rule getProp_stringified)
    with f(3) show "ToBoolean (getProp p ''published'')" by simp
    have slug: "getProp post ''slug'' = JStr f"
      using f(2) unfolding tryBlock_Inr by (auto simp: postLiteral_props)
    then have pslug: "getProp p ''slug'' = JStr f"
      unfolding f(4) by (simp add: getProp_stringified)
    show "getProp p ''slug'' \<noteq> JStr file"
    proof
      assume "getProp p ''slug'' = JStr file"
      with pslug have "f = file" by simp
      with f(1,2) entry(1) have "tryBlock e file text = Inr post" by simp
      then have "getProp post ''published'' = getProp conf ''published''"
        using entry(2) by (rule tryBlock_published)
      with f(3) flag show False by auto
    qed
  qed
  have "b" if "p \<in> set feed" "getProp p ''published'' = JBool b" for p b
    using pub [OF that(1)] that(2) by simp
  with pub src show ?thesis by blast
qed

theorem unpublished_file_has_no_entry_witness:
  "\<exists>console feed.
     markdownToJson testEngine sampleDir = (console, Inr feed) \<and>
     JStr ''draft.md'' \<notin> set (map (\<lambda>p. getProp p ''slug'') feed) \<and>
     list_all (\<lambda>p. ToBoolean (getProp p ''published'')) feed"
proof -
  obtain console feed where build: "markdownToJson testEngine sampleDir = (console, Inr feed)"
    by (simp add: run_defs test_defs sampleDir_def)
  have "(\<forall>p\<in>set feed. getProp p ''slug'' \<noteq> JStr ''draft.md'') \<and>
        (\<forall>p\<in>set feed. ToBoolean (getProp p ''published'') \<and>
           (\<forall>b. getProp p ''published'' = JBool b \<longrightarrow> b))"
  proof (rule unpublished_file_has_no_entry [OF build])
    show "permutes (Array_sort testEngine)"
      by (simp add: testEngine_def permutes_insertionSort)
    show "readFileSync sampleDir ''draft.md'' = Inr draftText"
      by (simp add: sampleDir_def directory_def)
    show "frontMatter testEngine draftText =
        Inr ([(''title'', JStr ''Draft''), (''published'', JBool False)], ''\<newline>Soon'')"
      by (simp add: testEngine_def testFrontMatter_def test_defs)
    show "getProp [(''title'', JStr ''Draft''), (''published'', JBool False)] ''published'' = JBool False \<or>
          getProp [(''title'', JStr ''Draft''), (''published'', JBool False)] ''published'' = JUndefined"
      by (simp add: getProp_def)
  qed
  then have "JStr ''draft.md'' \<notin> set (map (\<lambda>p. getProp p ''slug'') feed)"
    and "list_all (\<lambda>p. ToBoolean (getProp p ''published'')) feed"
    by (auto simp: list_all_iff)
  with build show ?thesis by blast
qed

text \<open>
  The claim has every post of the feed with \<open>published = true\<close>. The filter tests only
  whether the value counts as true: a header with the quoted string \<open>published: "false"\<close>
  gives a post that is in the feed, with the string as its \<open>published\<close>.
\<close>

theorem published_string_counterexample:
  "frontMatter testEngine quotedText =
     Inr ([(''title'', JStr ''Quoted''), (''published'', JStr ''false'')], ''\<newline>Text'') \<and>
   markdownToJson testEngine quotedDir =
     ([Listed (JStr ''quoted.md'')], Inr [stringified quotedPost]) \<and>
   getProp (stringified quotedPost) ''published'' = JStr ''false'' \<and>
   getProp (stringified quotedPost) ''published'' \<noteq> JBool True"
  by (simp add: run_defs test_defs quotedDir_def)

subsection \<open>The order of the feed\<close>

text \<open>
  C3, as amended. When every post of the feed has a date that is a number (a \<open>Date\<close>
  object or a number, other than NaN) and the engine's sort orders by the answers of the
  comparator, the feed is in descending order of date: \<open>post[i].date >= post[i+1].date\<close>
  for every index \<open>i\<close> with a successor.
\<close>

theorem feed_descending_for_numeric_dates:
  assumes build: "markdownToJson e fs = (console, Inr feed)"
    and srt: "ordersByAnswers (Array_sort e)"
    and dates: "\<forall>p\<in>set feed. isTimestamp (getProp p ''date'')"
  shows "\<forall>i. Suc i < length feed \<longrightarrow>
           js_ge e (getProp (feed ! i) ''date'') (getProp (feed ! Suc i) ''date'')"
proof (intro allI impI)
  fix i assume i: "Suc i < length feed"
  define le where "le a b = js_ge e (getProp a ''date'') (getProp b ''date'')" for a b :: obj
  from srt have perm: "permutes (Array_sort e)"
    by (simp add: ordersByAnswers_def)
  from build obtain log posts where g: "getSortedPostsData e fs = (log, Inr posts)"
    and feed: "feed = map stringified posts"
    unfolding markdownToJson_Inr by blast
  from g obtain names where posts: "posts = Array_sort e (byDate e) (publishedPosts e fs names)"
    unfolding getSortedPostsData_Inr by blast
  let ?pp = "publishedPosts e fs names"
  from perm have "mset posts = mset ?pp"
    by (simp add: permutes_def posts)
  then have sets: "set posts = set ?pp"
    by (rule mset_eq_setD)
  have kept: "getProp (stringified q) ''date'' = getProp q ''date''" if "q \<in> set posts" for q
  proof -
    from that sets have "q \<in> set ?pp" by simp
    then obtain f l where "getPostData e fs f = Inr (l, Some q)"
      unfolding publishedPosts_set by blast
    then obtain body where "tryBlock e f body = Inr q"
      unfolding getPostData_Some by blast
    then show ?thesis by (rule post_date_kept)
  qed
  have ts: "isTimestamp (getProp q ''date'')" if "q \<in> set posts" for q
  proof -
    from that have "stringified q \<in> set feed" by (simp add: feed)
    with dates have "isTimestamp (getProp (stringified q) ''date'')" by blast
    with kept [OF that] show ?thesis by simp
  qed
  have le: "le a b \<longleftrightarrow> \<not> num_less (timeValue (getProp a ''date'')) (timeValue (getProp b ''date''))"
    and lt: "js_lt e (getProp a ''date'') (getProp b ''date'') \<longleftrightarrow>
             num_less (timeValue (getProp a ''date'')) (timeValue (getProp b ''date''))"
    if "a \<in> set posts" "b \<in> set posts" for a b
    using IsLessThan_timestamps [OF ts [OF that(1)] ts [OF that(2)], of e]
    by (simp_all add: le_def js_ge_def js_lt_def)
  have nn: "timeValue (getProp a ''date'') \<noteq> NaN" if "a \<in> set posts" for a
    using ts [OF that] by (cases "getProp a ''date''") simp_all
  have tr: "transitiveOn le (set ?pp)"
    unfolding transitiveOn_def sets [symmetric]
  proof (intro ballI impI)
    fix x y z assume m: "x \<in> set posts" "y \<in> set posts" "z \<in> set posts"
      and "le x y" "le y z"
    then have "\<not> num_less (timeValue (getProp x ''date'')) (timeValue (getProp y ''date''))"
      "\<not> num_less (timeValue (getProp y ''date'')) (timeValue (getProp z ''date''))"
      by (simp_all add: le)
    with nn [OF m(1)] nn [OF m(2)] nn [OF m(3)]
    have "\<not> num_less (timeValue (getProp x ''date'')) (timeValue (getProp z ''date''))"
      by (rule not_less_trans)
    with m show "le x z" by (simp add: le)
  qed
  have tf: "truthful (byDate e) le (set ?pp)"
    unfolding truthful_def sets [symmetric]
  proof (intro ballI conjI impI)
    fix x y assume xy: "x \<in> set posts" "y \<in> set posts"
    { assume "byDate e x y < 0"
      then have "\<not> js_lt e (getProp x ''date'') (getProp y ''date'')"
        by (simp add: byDate_def split: if_splits)
      then show "le x y" using le [OF xy] lt [OF xy] by simp }
    { assume "0 < byDate e x y"
      then have "js_lt e (getProp x ''date'') (getProp y ''date'')"
        by (simp add: byDate_def split: if_splits)
      then have "num_less (timeValue (getProp x ''date'')) (timeValue (getProp y ''date''))"
        by (simp add: lt [OF xy])
      then have "\<not> num_less (timeValue (getProp y ''date'')) (timeValue (getProp x ''date''))"
        by (rule less_asym)
      then show "le y x" by (simp add: le [OF xy(2,1)]) }
    { assume z: "byDate e x y = 0"
      then show "le x y" by (simp add: byDate_def split: if_splits)
      from z show "le y x" by (simp add: byDate_def split: if_splits) }
  qed
  from srt tr tf have "sorted_wrt le posts"
    unfolding posts by (rule ordersByAnswersD)
  moreover from i have "Suc i < length posts" by (simp add: feed)
  ultimately have "le (posts ! i) (posts ! Suc i)"
    by (simp add: sorted_wrt_nth_less)
  moreover from i have "posts ! i \<in> set posts" "posts ! Suc i \<in> set posts"
    by (simp_all add: feed)
  ultimately show "js_ge e (getProp (feed ! i) ''date'') (getProp (feed ! Suc i) ''date'')"
    using i by (simp add: feed kept le_def)
qed

theorem feed_descending_for_numeric_dates_witness:
  "\<exists>console feed.
     markdownToJson testEngine datedDir = (console, Inr feed) \<and>
     map (\<lambda>p. getProp p ''slug'') feed = [JStr ''2020-01-05-example.md'', JStr ''old.md''] \<and>
     js_ge testEngine (getProp (feed ! 0) ''date'') (getProp (feed ! 1) ''date'')"
proof -
  obtain console feed where build: "markdownToJson testEngine datedDir = (console, Inr feed)"
    and slugs: "map (\<lambda>p. getProp p ''slug'') feed = [JStr ''2020-01-05-example.md'', JStr ''old.md'']"
    and dates: "list_all (\<lambda>p. isTimestamp (getProp p ''date'')) feed"
  proof -
    have "\<exists>console feed. markdownToJson testEngine datedDir = (console, Inr feed) \<and>
        map (\<lambda>p. getProp p ''slug'') feed = [JStr ''2020-01-05-example.md'', JStr ''old.md''] \<and>
        list_all (\<lambda>p. isTimestamp (getProp p ''date'')) feed"
      by (simp add: run_defs test_defs datedDir_def)
    then show ?thesis using that by auto
  qed
  have "\<forall>i. Suc i < length feed \<longrightarrow>
      js_ge testEngine (getProp (feed ! i) ''date'') (getProp (feed ! Suc i) ''date'')"
  proof (rule feed_descending_for_numeric_dates [OF build])
    show "ordersByAnswers (Array_sort testEngine)"
      by (simp add: testEngine_def ordersByAnswers_insertionSort)
    show "\<forall>p\<in>set feed. isTimestamp (getProp p ''date'')"
      using dates by (simp add: list_all_iff)
  qed
  moreover have "length feed = 2"
    using arg_cong [OF slugs, of length] by simp
  ultimately have "js_ge testEngine (getProp (feed ! 0) ''date'') (getProp (feed ! 1) ''date'')"
    by simp
  with build slugs show ?thesis by auto
qed

text \<open>
  As stated, for every feed, the claim fails: a published file with no \<open>date\<close> field and
  no date at the start of its name gets the date NaN, and \<open>>=\<close> is false for NaN.
\<close>

theorem descending_order_counterexample:
  "markdownToJson testEngine aboutDir =
     ([Listed (JStr ''2020-01-05-example.md''), Listed (JStr ''about.md'')],
      Inr [helloPost, stringified aboutPost]) \<and>
   getProp helloPost ''date'' = JNum (Fin 1578182400000) \<and>
   getProp (stringified aboutPost) ''date'' = JNum NaN \<and>
   \<not> js_ge testEngine (getProp helloPost ''date'') (getProp (stringified aboutPost) ''date'')"
  by (simp add: run_defs test_defs aboutDir_def js_ge_def)

text \<open>
  C4. Two published posts of equal date, scanned as \<open>a.md\<close> then \<open>b.md\<close>: the comparator
  answers \<open>-1\<close> for the pair in either order, and the two insertion sorts, which agree
  whenever the comparator is truthful for an order, put them in opposite orders. With
  the first sort the feed has \<open>b.md\<close> before \<open>a.md\<close>, the reverse of the scan.
\<close>

theorem equal_dates_order_is_left_to_the_sort:
  "getProp (datedPost ''a.md'') ''date'' = getProp (datedPost ''b.md'') ''date'' \<and>
   byDate testEngine (datedPost ''a.md'') (datedPost ''b.md'') = - 1 \<and>
   byDate testEngine (datedPost ''b.md'') (datedPost ''a.md'') = - 1 \<and>
   markdownToJson testEngine tieDir =
     ([Listed (JStr ''b.md''), Listed (JStr ''a.md'')],
      Inr [stringified (datedPost ''b.md''), stringified (datedPost ''a.md'')]) \<and>
   markdownToJson testEngineFromEnd tieDir =
     ([Listed (JStr ''a.md''), Listed (JStr ''b.md'')],
      Inr [stringified (datedPost ''a.md''), stringified (datedPost ''b.md'')])"
  by (simp add: run_defs test_defs tieDir_def)

subsection \<open>A malformed file does not stop the build\<close>



subsection \<open>The date of a post\<close>

text \<open>
  C6, as amended. For a file that is read, whose front matter parses, whose \<open>tags\<close> is
  missing, null or a string and whose body renders, \<open>getPostData\<close> returns a post and
  logs nothing. Its date is the header's \<open>date\<close> when that is there (neither missing nor
  null); otherwise it is the number that \<open>Date.parse\<close> returns for the first ten
  characters of the file name. Whether that number is NaN plays no part: there is no
  failure for a date that cannot be resolved.
\<close>

theorem date_resolution:
  assumes entry: "readFileSync fs file = Inr text"
    and header: "frontMatter e text = Inr (conf, rest)"
      "nullish (getProp conf ''tags'') \<or> (\<exists>s. getProp conf ''tags'' = JStr s)"
    and rendered: "Marked_parse e rest = Inr html" "excerptHtml e html 250 = Inr ex"
  shows "\<exists>post. getPostData e fs file = Inr ([], Some post) \<and>
           getProp post ''date'' =
             (if getProp conf ''date'' = JUndefined \<or> getProp conf ''date'' = JNull
              then JNum (Date_parse e (take 10 file))
              else getProp conf ''date'')"
proof -
  from getPostData_valid [OF entry header rendered] obtain post tags where
    p: "post = postLiteral (set_prop ''__content'' (JStr rest) conf) file html ex tags
                    (dateOf e file (getProp conf ''date''))"
       "getPostData e fs file = Inr ([], Some post)"
    by blast
  have "dateOf e file (getProp conf ''date'') =
          (if getProp conf ''date'' = JUndefined \<or> getProp conf ''date'' = JNull
           then JNum (Date_parse e (take 10 file))
           else getProp conf ''date'')"
    by (cases "getProp conf ''date''") (simp_all add: dateOf_def substring0_def)
  with p show ?thesis
    by (simp add: postLiteral_props)
qed

theorem date_resolution_witness:
  "\<exists>post. getPostData testEngine sampleDir ''2020-01-05-example.md'' = Inr ([], Some post) \<and>
     getProp post ''date'' = JNum (Fin 1578182400000)"
proof -
  let ?conf = "[(''title'', JStr ''Hello''), (''published'', JBool True), (''tags'', JStr ''a, b , c'')]"
  have "\<exists>post. getPostData testEngine sampleDir ''2020-01-05-example.md'' = Inr ([], Some post) \<and>
           getProp post ''date'' =
             (if getProp ?conf ''date'' = JUndefined \<or> getProp ?conf ''date'' = JNull
              then JNum (Date_parse testEngine (take 10 ''2020-01-05-example.md''))
              else getProp ?conf ''date'')"
  proof (rule date_resolution)
    show "readFileSync sampleDir ''2020-01-05-example.md'' = Inr helloText"
      by (simp add: sampleDir_def directory_def)
    show "frontMatter testEngine helloText = Inr (?conf, ''\<newline>Hello *world*'')"
      by (simp add: testEngine_def testFrontMatter_def)
    show "nullish (getProp ?conf ''tags'') \<or> (\<exists>s. getProp ?conf ''tags'' = JStr s)"
      by (simp add: getProp_def)
    show "Marked_parse testEngine ''\<newline>Hello *world*'' = Inr ''<p>\<newline>Hello *world*</p>''"
      by (simp add: testEngine_def)
    show "excerptHtml testEngine ''<p>\<newline>Hello *world*</p>'' 250 = Inr ''<p>\<newline>Hello *world*</p>''"
      by (simp add: testEngine_def)
  qed
  moreover have "Date_parse testEngine (take 10 ''2020-01-05-example.md'') = Fin 1578182400000"
    by (simp add: test_defs)
  ultimately show ?thesis
    by (simp add: getProp_def)
qed

text \<open>
  The claim has such a file fail. A published \<open>about.md\<close> with no \<open>date\<close> field is
  ingested with the date NaN and is in the feed.
\<close>

theorem missing_date_counterexample:
  "getPostData testEngine aboutDir ''about.md'' = Inr ([], Some aboutPost) \<and>
   getProp aboutPost ''date'' = JNum NaN \<and>
   markdownToJson testEngine aboutDir =
     ([Listed (JStr ''2020-01-05-example.md''), Listed (JStr ''about.md'')],
      Inr [helloPost, stringified aboutPost])"
  by (simp add: run_defs test_defs aboutDir_def)

subsection \<open>Tags\<close>

text \<open>
  C7, as amended. For a file whose header has \<open>tags\<close> as a string, the post's tags are the
  pieces of the string between its commas, in order, each trimmed: joining the pieces
  with commas gives the string back, no piece has a comma, and there is one piece more
  than there are commas, so an empty piece stays in the list as an empty tag.
\<close>

theorem tags_are_trimmed_pieces:
  assumes entry: "readFileSync fs file = Inr text"
    and header: "frontMatter e text = Inr (conf, rest)" "getProp conf ''tags'' = JStr s"
    and rendered: "Marked_parse e rest = Inr html" "excerptHtml e html 250 = Inr ex"
  shows "\<exists>post. getPostData e fs file = Inr ([], Some post) \<and>
           getProp post ''tags'' = JArr (map (\<lambda>t. JStr (trim t)) (split CHR '','' s)) \<and>
           joinWith CHR '','' (split CHR '','' s) = s \<and>
           (\<forall>w\<in>set (split CHR '','' s). CHR '','' \<notin> set w) \<and>
           length (split CHR '','' s) = Suc (count_list s CHR '','')"
proof -
  have "nullish (getProp conf ''tags'') \<or> (\<exists>s. getProp conf ''tags'' = JStr s)"
    using header(2) by simp
  from getPostData_valid [OF entry header(1) this rendered] obtain post tags where
    p: "tagsOf (getProp conf ''tags'') = Inr tags"
       "post = postLiteral (set_prop ''__content'' (JStr rest) conf) file html ex tags
                    (dateOf e file (getProp conf ''date''))"
       "getPostData e fs file = Inr ([], Some post)"
    by blast
  from p(1) have "tags = JArr (map (\<lambda>t. JStr (trim t)) (split CHR '','' s))"
    by (simp add: tagsOf_def header(2))
  with p(2) have "getProp post ''tags'' = JArr (map (\<lambda>t. JStr (trim t)) (split CHR '','' s))"
    by (simp add: postLiteral_props)
  with p(3) show ?thesis
    using split_no_separator [of _ "CHR '',''" s]
    by (simp add: join_split length_split)
qed

theorem tags_are_trimmed_pieces_witness:
  "\<exists>post. getPostData testEngine sampleDir ''2020-01-05-example.md'' = Inr ([], Some post) \<and>
     getProp post ''tags'' = JArr [JStr ''a'', JStr ''b'', JStr ''c'']"
proof -
  let ?conf = "[(''title'', JStr ''Hello''), (''published'', JBool True), (''tags'', JStr ''a, b , c'')]"
  have "\<exists>post. getPostData testEngine sampleDir ''2020-01-05-example.md'' = Inr ([], Some post) \<and>
           getProp post ''tags'' = JArr (map (\<lambda>t. JStr (trim t)) (split CHR '','' ''a, b , c'')) \<and>
           joinWith CHR '','' (split CHR '','' ''a, b , c'') = ''a, b , c'' \<and>
           (\<forall>w\<in>set (split CHR '','' ''a, b , c''). CHR '','' \<notin> set w) \<and>
           length (split CHR '','' ''a, b , c'') = Suc (count_list ''a, b , c'' CHR '','')"
  proof (rule tags_are_trimmed_pieces)
    show "readFileSync sampleDir ''2020-01-05-example.md'' = Inr helloText"
      by (simp add: sampleDir_def directory_def)
    show "frontMatter testEngine helloText = Inr (?conf, ''\<newline>Hello *world*'')"
      by (simp add: testEngine_def testFrontMatter_def)
    show "getProp ?conf ''tags'' = JStr ''a, b , c''"
      by (simp add: getProp_def)
    show "Marked_parse testEngine ''\<newline>Hello *world*'' = Inr ''<p>\<newline>Hello *world*</p>''"
      by (simp add: testEngine_def)
    show "excerptHtml testEngine ''<p>\<newline>Hello *world*</p>'' 250 = Inr ''<p>\<newline>Hello *world*</p>''"
      by (simp add: testEngine_def)
  qed
  moreover have "map (\<lambda>t. JStr (trim t)) (split CHR '','' ''a, b , c'') = [JStr ''a'', JStr ''b'', JStr ''c'']"
    by (simp add: trim_def isWhite_def)
  ultimately show ?thesis
    by (simp only:) blast
qed

text \<open>
  The claim has empty entries dropped. The field \<open>tags: a,,b\<close> gives three tags, the
  second one empty.
\<close>

theorem empty_tag_counterexample:
  "getPostData testEngine gapDir ''gap.md'' = Inr ([], Some gapPost) \<and>
   getProp gapPost ''tags'' = JArr [JStr ''a'', JStr [], JStr ''b'']"
  by (simp add: run_defs test_defs gapDir_def)

text \<open>A \<open>tags\<close> field that is not a string, here the number 2020, has no \<open>split\<close>: the call
  throws inside the \<open>try\<close> block and the file is skipped with a failure line.\<close>

lemma numeric_tags_file_is_skipped:
  "getPostData testEngine (directory [(''review.md'', yearText)]) ''review.md'' =
     Inr ([Failure (TypeError ''yamlHeader.tags.split is not a function'')], None)"
  by (simp add: run_defs test_defs)

subsection \<open>A file that cannot be read\<close>

text \<open>
  C8, as amended. \<open>readFileSync\<close> is called before the \<open>try\<close> block of \<open>getPostData\<close>.
  When the scan lists a content file that cannot be read, the promise of the build
  rejects with the error of such a file and no feed is written, as for a directory that
  cannot be read.
\<close>

theorem unreadable_file_aborts_build:
  assumes scan: "readdirSync fs = Inr fileNames"
    and entry: "file \<in> set fileNames" "endsWith file ''.md''" "readFileSync fs file = Inl err"
  shows "\<exists>console failure. markdownToJson e fs = (console, Inl failure) \<and>
           (\<exists>f\<in>set fileNames. endsWith f ''.md'' \<and> readFileSync fs f = Inl failure)"
proof -
  let ?promises = "map (getPostData e fs) (filter (\<lambda>f. endsWith f ''.md'') fileNames)"
  have "getPostData e fs file = Inl err"
    by (simp add: getPostData_def entry(3))
  with entry(1,2) have "Inl err \<in> set ?promises"
    by (auto simp: image_iff intro!: bexI [of _ "file"])
  then obtain failure where fr: "firstRejection ?promises = Some failure"
    and "Inl failure \<in> set ?promises"
    using firstRejection_Some by blast
  then obtain f where f: "f \<in> set fileNames" "endsWith f ''.md''" "getPostData e fs f = Inl failure"
    by auto
  from f(3) have "readFileSync fs f = Inl failure"
    by (auto simp: getPostData_def split: sum.splits)
  moreover have "\<exists>console. markdownToJson e fs = (console, Inl failure)"
    by (simp add: markdownToJson_def getSortedPostsData_def scan fr)
  ultimately show ?thesis using f(1,2) by blast
qed

theorem unreadable_file_aborts_build_witness:
  "\<exists>console failure.
     markdownToJson testEngine lockedDir = (console, Inl failure) \<and>
     (readFileSync lockedDir ''2020-01-05-example.md'' = Inl failure \<or>
      readFileSync lockedDir ''locked.md'' = Inl failure)"
proof -
  have "\<exists>console failure. markdownToJson testEngine lockedDir = (console, Inl failure) \<and>
      (\<exists>f\<in>set [''2020-01-05-example.md'', ''locked.md''].
          endsWith f ''.md'' \<and> readFileSync lockedDir f = Inl failure)"
  proof (rule unreadable_file_aborts_build)
    show "readdirSync lockedDir = Inr [''2020-01-05-example.md'', ''locked.md'']"
      by (simp add: lockedDir_def)
    show "''locked.md'' \<in> set [''2020-01-05-example.md'', ''locked.md'']"
      by simp
    show "endsWith ''locked.md'' ''.md''"
      by (simp add: endsWith_def)
    show "readFileSync lockedDir ''locked.md'' = Inl (SystemError ''EACCES: permission denied'')"
      by (simp add: lockedDir_def)
  qed
  then show ?thesis by auto
qed

text \<open>
  The claim has the file skipped and the feed built from the others. A directory with
  one readable published post and one unreadable file gives no feed.
\<close>

theorem unreadable_file_counterexample:
  "readFileSync lockedDir ''2020-01-05-example.md'' = Inr helloText \<and>
   readFileSync lockedDir ''locked.md'' = Inl (SystemError ''EACCES: permission denied'') \<and>
   markdownToJson testEngine lockedDir = ([], Inl (SystemError ''EACCES: permission denied''))"
  by (simp add: run_defs test_defs lockedDir_def)

subsection \<open>The raw body in the feed\<close>

text \<open>
  C10. Every post of the written feed comes from a file of the directory and has a
  property \<open>__content\<close>; its value is the text after the front matter block of that file,
  the same text whose rendering is the post's \<open>contentHtml\<close>.
\<close>

theorem feed_posts_carry_raw_body:
  assumes build: "markdownToJson e fs = (console, Inr feed)"
    and srt: "permutes (Array_sort e)"
  shows "\<forall>p\<in>set feed. \<exists>file text conf rest html.
           readFileSync fs file = Inr text \<and> frontMatter e text = Inr (conf, rest) \<and>
           Marked_parse e rest = Inr html \<and>
           getProp p ''slug'' = JStr file \<and>
           getProp p ''contentHtml'' = JStr html \<and>
           getProp p ''__content'' = JStr rest \<and>
           ''__content'' \<in> fst ` set p"
proof
  fix p assume mem: "p \<in> set feed"
  from feed_member [OF build srt mem] obtain name body post where
    f: "readFileSync fs name = Inr body" "tryBlock e name body = Inr post" "p = stringified post"
    by blast
  from f(2) obtain conf rest html ex tags where
    h: "frontMatter e body = Inr (conf, rest)" "Marked_parse e rest = Inr html"
    and post: "post = postLiteral (set_prop ''__content'' (JStr rest) conf) name html ex tags
                 (dateOf e name (getProp conf ''date''))"
    unfolding tryBlock_Inr by blast
  have "getProp post ''slug'' = JStr name" "getProp post ''contentHtml'' = JStr html"
    "getProp post ''__content'' = JStr rest"
    by (simp_all add: post postLiteral_props getProp_set_prop)
  then have p: "getProp p ''slug'' = JStr name" "getProp p ''contentHtml'' = JStr html"
    "getProp p ''__content'' = JStr rest"
    unfolding f(3) by (simp_all add: getProp_stringified)
  from p(3) have "''__content'' \<in> fst ` set p"
    by (intro getProp_key) simp
  with f(1) h p show "\<exists>file text conf rest html.
           readFileSync fs file = Inr text \<and> frontMatter e text = Inr (conf, rest) \<and>
           Marked_parse e rest = Inr html \<and>
           getProp p ''slug'' = JStr file \<and>
           getProp p ''contentHtml'' = JStr html \<and>
           getProp p ''__content'' = JStr rest \<and>
           ''__content'' \<in> fst ` set p"
    by blast
qed

theorem feed_posts_carry_raw_body_witness:
  "\<exists>console feed.
     markdownToJson testEngine sampleDir = (console, Inr feed) \<and>
     map (\<lambda>p. getProp p ''__content'') feed = [JStr ''\<newline>Hello *world*''] \<and>
     list_all (\<lambda>p. ''__content'' \<in> fst ` set p) feed"
proof -
  obtain console feed where build: "markdownToJson testEngine sampleDir = (console, Inr feed)"
    and raw: "map (\<lambda>p. getProp p ''__content'') feed = [JStr ''\<newline>Hello *world*'']"
  proof -
    have "\<exists>console feed. markdownToJson testEngine sampleDir = (console, Inr feed) \<and>
        map (\<lambda>p. getProp p ''__content'') feed = [JStr ''\<newline>Hello *world*'']"
      by (simp add: run_defs test_defs sampleDir_def)
    then show ?thesis using that by auto
  qed
  have "permutes (Array_sort testEngine)"
    by (simp add: testEngine_def permutes_insertionSort)
  from feed_posts_carry_raw_body [OF build this]
  have "list_all (\<lambda>p. ''__content'' \<in> fst ` set p) feed"
    unfolding list_all_iff by blast
  with build raw show ?thesis by auto
qed

end
